theory Spec2Isabelle
  imports Main "HOL-Library.Sublist"
begin

section \<open>The data of \<open>runner.ts\<close>\<close>

text \<open>
  JavaScript strings are sequences of code units; \<open>includes\<close>, \<open>split\<close> and \<open>join\<close>
  only compare and copy code units, so a string is modelled as a \<^typ>\<open>string\<close>
  (a list of characters).

  \<open>Env.head_branch\<close> is declared a string, but \<open>is_pull_request\<close> tests it against
  \<open>undefined\<close> and \<open>null\<close> as well, so the field ranges over all three.
\<close>

datatype jsval = Undefined | Null | Str string

record env =
  api_token :: string
  check_suite_id :: int
  head_branch :: jsval
  head_commit :: string
  workflow :: string
  owner :: string
  repo :: string

record pull_request =
  number :: int

text \<open>
  The comments come from \<open>issues.listComments\<close>, whose \<open>body\<close> is optional
  (\<open>body?: string\<close>): \<open>None\<close> is \<open>undefined\<close>. The field \<open>id\<close> is named \<open>ident\<close>.
\<close>

record issue_comment =
  ident :: int
  body :: "string option"

text \<open>
  A check run as \<open>checks.listForSuite\<close> returns it: \<open>title\<close> is \<open>output.title\<close>, and
  \<open>conclusion\<close> is a string or \<open>null\<close> (\<open>None\<close>).
\<close>

record check_run =
  title :: string
  html_url :: string
  conclusion :: "string option"

datatype error = TypeError | RequestError

section \<open>String operations of the JavaScript library\<close>

text \<open>\<open>s.includes(t)\<close>, named \<open>includes_s\<close> here: \<open>t\<close> occurs in \<open>s\<close> as a contiguous run.\<close>

fun includes_s :: "string \<Rightarrow> string \<Rightarrow> bool" where
  "includes_s [] t = (t = [])"
| "includes_s (c # cs) t = (prefix t (c # cs) \<or> includes_s cs t)"

text \<open>
  \<open>s.split(sep)\<close> for a string separator: the pieces between the successive leftmost
  occurrences of \<open>sep\<close>. \<open>split_from sep cur rest\<close> scans \<open>rest\<close> with the piece \<open>cur\<close>
  collected so far. With the empty separator, \<open>split\<close> yields the code units one by one.
\<close>

fun split_from :: "string \<Rightarrow> string \<Rightarrow> string \<Rightarrow> string list" where
  "split_from sep cur [] = [cur]"
| "split_from sep cur (c # cs) =
     (if prefix sep (c # cs) then cur # split_from sep [] (drop (length sep - 1) cs)
      else split_from sep (cur @ [c]) cs)"

definition split :: "string \<Rightarrow> string \<Rightarrow> string list" where
  "split s sep = (if sep = [] then map (\<lambda>c. [c]) s else split_from sep [] s)"

text \<open>\<open>xs.join(sep)\<close>.\<close>

fun join :: "string list \<Rightarrow> string \<Rightarrow> string" where
  "join [] sep = []"
| "join [x] sep = x"
| "join (x # y # ys) sep = x @ sep @ join (y # ys) sep"

section \<open>The pure part of \<open>Runner\<close>\<close>

text \<open>The three strings the constructor computes from the environment.\<close>

definition signature :: "env \<Rightarrow> string" where
  "signature e =
     ''GitHub Action status on '' @ head_commit e @ '' generated by comment-failure-action''"

definition separator :: string where
  "separator = ''\<newline><!-- SEPARATOR -->\<newline>''"

definition tag :: "env \<Rightarrow> string" where
  "tag e = ''<!-- WORKFLOW:'' @ workflow e @ '' -->''"

definition is_pull_request :: "env \<Rightarrow> bool" where
  "is_pull_request e =
     (head_branch e \<noteq> Undefined \<and> head_branch e \<noteq> Null \<and> head_branch e \<noteq> Str [])"

text \<open>
  \<open>generate_section\<close> pushes the tag, a heading and either the all-clear line or a
  table with one row per failed run, and joins the lines with a newline.
\<close>

definition generate_section :: "env \<Rightarrow> check_run list \<Rightarrow> string" where
  "generate_section e failed_runs =
     join ([tag e, ''### '' @ workflow e] @
           (if length failed_runs = 0 then [''No jobs failed :+1:'']
            else [''| job | url |'', ''|-----|-----|''] @
                 map (\<lambda>failed_run. ''| '' @ title failed_run @ '' | '' @ html_url failed_run @ '' |'')
                     failed_runs))
          ''\<newline>''"

definition split_body :: "env \<Rightarrow> string \<Rightarrow> string list" where
  "split_body e b =
     filter (\<lambda>section. \<not> includes_s section (signature e)) (split b separator)"

text \<open>
  \<open>replace_or_append_section\<close> maps a callback over the old sections; the callback
  sets the flag \<open>replaced\<close> as a side effect. \<open>replace_sections\<close> is that \<open>map\<close>, with
  the flag passed in and returned.
\<close>

fun replace_sections :: "env \<Rightarrow> string \<Rightarrow> string list \<Rightarrow> bool \<Rightarrow> string list \<times> bool" where
  "replace_sections e section [] replaced = ([], replaced)"
| "replace_sections e section (old_section # rest) replaced =
     (if includes_s old_section (tag e)
      then (case replace_sections e section rest True of
              (new_sections, replaced') \<Rightarrow> (section # new_sections, replaced'))
      else (case replace_sections e section rest replaced of
              (new_sections, replaced') \<Rightarrow> (old_section # new_sections, replaced')))"

definition replace_or_append_section :: "env \<Rightarrow> string \<Rightarrow> string list \<Rightarrow> string list" where
  "replace_or_append_section e section old_sections =
     (case replace_sections e section old_sections False of
        (new_sections, replaced) \<Rightarrow>
          if \<not> replaced then new_sections @ [section] else new_sections)"

definition generate_body :: "env \<Rightarrow> string list \<Rightarrow> string" where
  "generate_body e sections = join ([signature e] @ sections) separator"

section \<open>The remote API and the effects of \<open>Runner\<close>\<close>

text \<open>
  The requests \<open>Runner\<close> sends through its Octokit client, with the parameters it
  passes: \<open>pulls.list\<close> (owner, repo, state, head), \<open>checks.listForSuite\<close> (owner,
  repo, check suite id, status), \<open>issues.listComments\<close> (owner, repo, issue number),
  \<open>issues.updateComment\<close> (owner, repo, comment id, body), \<open>issues.createComment\<close>
  (owner, repo, issue number, body) and \<open>issues.addLabels\<close> (owner, repo, issue
  number, labels). A paginated listing is one request answered by the whole list.
\<close>

datatype request =
    Pulls_list string string string string
  | Checks_listForSuite string string int string
  | Issues_listComments string string int
  | Issues_updateComment string string int string
  | Issues_createComment string string int string
  | Issues_addLabels string string int string

text \<open>
  The client is a parameter: what it answers to a request may depend on every request
  sent before (the remote has state), and \<open>None\<close> or \<open>False\<close> is a request that
  fails, which rejects the awaited promise.
\<close>

record octokit =
  pulls :: "request list \<Rightarrow> request \<Rightarrow> pull_request list option"
  check_runs :: "request list \<Rightarrow> request \<Rightarrow> check_run list option"
  comments :: "request list \<Rightarrow> request \<Rightarrow> issue_comment list option"
  accepts :: "request list \<Rightarrow> request \<Rightarrow> bool"

text \<open>
  What an invocation leaves behind: the requests it sent, in order, and the lines it
  logged with \<open>core.info\<close>. An asynchronous method is a function on this state that
  returns its value or the error that rejected it.
\<close>

record state =
  journal :: "request list"
  infos :: "string list"

type_synonym 'a action = "state \<Rightarrow> (error + 'a) \<times> state"

definition return_a :: "'a \<Rightarrow> 'a action" where
  "return_a x s = (Inr x, s)"

definition throw_a :: "error \<Rightarrow> 'a action" where
  "throw_a err s = (Inl err, s)"

definition await :: "'a action \<Rightarrow> ('a \<Rightarrow> 'b action) \<Rightarrow> 'b action" where
  "await m f s = (case m s of (Inl err, s') \<Rightarrow> (Inl err, s') | (Inr x, s') \<Rightarrow> f x s')"

definition core_info :: "string \<Rightarrow> unit action" where
  "core_info msg s = (Inr (), s\<lparr>infos := infos s @ [msg]\<rparr>)"

definition paginate :: "(request list \<Rightarrow> request \<Rightarrow> 'a option) \<Rightarrow> request \<Rightarrow> 'a action" where
  "paginate endpoint r s =
     (case endpoint (journal s) r of
        None \<Rightarrow> (Inl RequestError, s\<lparr>journal := journal s @ [r]\<rparr>)
      | Some x \<Rightarrow> (Inr x, s\<lparr>journal := journal s @ [r]\<rparr>))"

definition send :: "octokit \<Rightarrow> request \<Rightarrow> unit action" where
  "send k r s =
     (if accepts k (journal s) r then (Inr (), s\<lparr>journal := journal s @ [r]\<rparr>)
      else (Inl RequestError, s\<lparr>journal := journal s @ [r]\<rparr>))"

text \<open>A \<open>for ... of\<close> loop whose body awaits: the first rejection leaves the loop.\<close>

fun for_of :: "'a list \<Rightarrow> ('a \<Rightarrow> unit action) \<Rightarrow> unit action" where
  "for_of [] f = return_a ()"
| "for_of (x # xs) f = await (f x) (\<lambda>_. for_of xs f)"

text \<open>A template literal prints \<open>undefined\<close> and \<open>null\<close> by name.\<close>

fun to_string :: "jsval \<Rightarrow> string" where
  "to_string Undefined = ''undefined''"
| "to_string Null = ''null''"
| "to_string (Str s) = s"

text \<open>
  \<open>b.includes(t)\<close> on a value that may be \<open>undefined\<close> throws a \<open>TypeError\<close> there;
  \<open>find_e\<close> is \<open>Array.prototype.find\<close> with a callback that may throw.
\<close>

definition includes_m :: "string option \<Rightarrow> string \<Rightarrow> error + bool" where
  "includes_m b t = (case b of None \<Rightarrow> Inl TypeError | Some s \<Rightarrow> Inr (includes_s s t))"

fun find_e :: "('a \<Rightarrow> error + bool) \<Rightarrow> 'a list \<Rightarrow> error + 'a option" where
  "find_e p [] = Inr None"
| "find_e p (x # xs) =
     (case p x of Inl err \<Rightarrow> Inl err
      | Inr found \<Rightarrow> if found then Inr (Some x) else find_e p xs)"

definition find_pull_requests :: "env \<Rightarrow> octokit \<Rightarrow> pull_request list action" where
  "find_pull_requests e k =
     paginate (pulls k)
       (Pulls_list (owner e) (repo e) ''open'' (owner e @ '':'' @ to_string (head_branch e)))"

definition find_failed_check_runs :: "env \<Rightarrow> octokit \<Rightarrow> check_run list action" where
  "find_failed_check_runs e k =
     await (paginate (check_runs k)
              (Checks_listForSuite (owner e) (repo e) (check_suite_id e) ''completed''))
       (\<lambda>response. return_a
          (filter (\<lambda>check_run. conclusion check_run \<noteq> Some ''success'' \<and>
                               conclusion check_run \<noteq> Some ''neutral'') response))"

definition find_comment :: "env \<Rightarrow> octokit \<Rightarrow> pull_request \<Rightarrow> issue_comment option action" where
  "find_comment e k pr =
     await (paginate (comments k) (Issues_listComments (owner e) (repo e) (number pr)))
       (\<lambda>cs s. (find_e (\<lambda>c. if body c \<noteq> None then includes_m (body c) (signature e)
                              else Inr False) cs, s))"

definition update_comment :: "env \<Rightarrow> octokit \<Rightarrow> issue_comment \<Rightarrow> string \<Rightarrow> unit action" where
  "update_comment e k comment section =
     (case body comment of
        None \<Rightarrow> throw_a TypeError
      | Some b \<Rightarrow>
          (let old_sections = split_body e b;
               new_sections = replace_or_append_section e section old_sections;
               body = generate_body e new_sections
           in send k (Issues_updateComment (owner e) (repo e) (ident comment) body)))"

definition add_label :: "env \<Rightarrow> octokit \<Rightarrow> pull_request \<Rightarrow> unit action" where
  "add_label e k pr =
     send k (Issues_addLabels (owner e) (repo e) (number pr) ''waiting-response'')"

definition create_comment :: "env \<Rightarrow> octokit \<Rightarrow> pull_request \<Rightarrow> string \<Rightarrow> unit action" where
  "create_comment e k pr section =
     (let body = generate_body e [section]
      in send k (Issues_createComment (owner e) (repo e) (number pr) body))"

text \<open>The body of the loop of \<open>run\<close>, for one pull request.\<close>

definition run_pr :: "env \<Rightarrow> octokit \<Rightarrow> string \<Rightarrow> check_run list \<Rightarrow> pull_request \<Rightarrow> unit action" where
  "run_pr e k section failed_runs pr =
     await (find_comment e k pr)
       (\<lambda>comment. case comment of
          Some c \<Rightarrow>
            await (update_comment e k c section)
              (\<lambda>_. await (core_info ''Updated comment'') (\<lambda>_. add_label e k pr))
        | None \<Rightarrow>
            if length failed_runs > 0
            then await (create_comment e k pr section)
                   (\<lambda>_. await (core_info ''Created comment'') (\<lambda>_. add_label e k pr))
            else return_a ())"

definition run :: "env \<Rightarrow> octokit \<Rightarrow> unit action" where
  "run e k =
     (if \<not> is_pull_request e then core_info ''Invoked without pull request''
      else await (find_pull_requests e k)
        (\<lambda>prs. if length prs = 0
                then core_info (''No open pull requests found with '' @
                                to_string (head_branch e) @ '' branch'')
                else await (find_failed_check_runs e k)
                  (\<lambda>failed_runs.
                     let section = generate_section e failed_runs
                     in for_of prs (run_pr e k section failed_runs))))"

section \<open>Notions used to state the properties\<close>

text \<open>
  \<open>sends_only P m\<close>: whatever the state, the method \<open>m\<close> only appends requests to
  the journal, and each of them satisfies \<open>P\<close>.
\<close>

definition sends_only :: "(request \<Rightarrow> bool) \<Rightarrow> 'a action \<Rightarrow> bool" where
  "sends_only P m = (\<forall>s. \<exists>new. journal (snd (m s)) = journal s @ new \<and> list_all P new)"

text \<open>The comment body a request writes, if it writes one.\<close>

fun written_body :: "request \<Rightarrow> string option" where
  "written_body (Issues_updateComment _ _ _ b) = Some b"
| "written_body (Issues_createComment _ _ _ b) = Some b"
| "written_body _ = None"

text \<open>
  An environment for concrete runs: workflow \<open>X\<close> on branch \<open>feature\<close> at
  commit \<open>abc123\<close>.
\<close>

definition example_env :: env where
  "example_env =
     \<lparr>api_token = ''token'', check_suite_id = 7, head_branch = Str ''feature'',
      head_commit = ''abc123'', workflow = ''X'', owner = ''octo'', repo = ''demo''\<rparr>"

text \<open>
  \<open>conforms e section r\<close>: if the request \<open>r\<close> writes a comment body, the body is
  rendered from a list of sections that holds \<open>section\<close>.
\<close>

definition conforms :: "env \<Rightarrow> string \<Rightarrow> request \<Rightarrow> bool" where
  "conforms e section r =
     (\<forall>b. written_body r = Some b \<longrightarrow>
        (\<exists>sections. b = generate_body e sections \<and> section \<in> set sections))"

text \<open>
  The comments of the example remote: pull request 6 has a comment without body and
  two comments with the signature of commit \<open>abc123\<close>, any other pull request has
  none. The example remote accepts every request and answers every listing with the
  same pull requests and check runs. A run starts with nothing sent and nothing logged.
\<close>

definition example_comments :: "int \<Rightarrow> issue_comment list" where
  "example_comments n =
     (if n = 6
      then [\<lparr>ident = 60, body = None\<rparr>,
            \<lparr>ident = 61, body = Some ''GitHub Action status on abc123 generated by comment-failure-action\<newline><!-- SEPARATOR -->\<newline><!-- WORKFLOW:X -->\<newline>### X\<newline>| job | url |\<newline>|-----|-----|\<newline>| lint | http://x |''\<rparr>,
            \<lparr>ident = 62, body = Some ''GitHub Action status on abc123 generated by comment-failure-action''\<rparr>]
      else [])"

definition example_remote :: "pull_request list \<Rightarrow> check_run list \<Rightarrow> octokit" where
  "example_remote prs runs =
     \<lparr>pulls = (\<lambda>_ _. Some prs), check_runs = (\<lambda>_ _. Some runs),
      comments = (\<lambda>_ r. case r of Issues_listComments _ _ n \<Rightarrow> Some (example_comments n)
                                  | _ \<Rightarrow> None),
      accepts = (\<lambda>_ _. True)\<rparr>"

definition example_start :: state where
  "example_start = \<lparr>journal = [], infos = []\<rparr>"

section \<open>Substrings and the section list\<close>

lemma includes_s_iff: "includes_s s t \<longleftrightarrow> (\<exists>ps ss. s = ps @ t @ ss)"
proof (induction s)
  case Nil
  then show ?case by auto
next
  case (Cons c cs)
  show ?case
  proof
    assume "includes_s (c # cs) t"
    then consider "prefix t (c # cs)" | "includes_s cs t" by auto
    then show "\<exists>ps ss. c # cs = ps @ t @ ss"
    proof cases
      case 1
      then obtain ss where "c # cs = t @ ss" by (auto simp: prefix_def)
      then have "c # cs = [] @ t @ ss" by simp
      then show ?thesis by blast
    next
      case 2
      with Cons.IH obtain ps ss where "cs = ps @ t @ ss" by blast
      then have "c # cs = (c # ps) @ t @ ss" by simp
      then show ?thesis by blast
    qed
  next
    assume "\<exists>ps ss. c # cs = ps @ t @ ss"
    then obtain ps ss where eq: "c # cs = ps @ t @ ss" by blast
    show "includes_s (c # cs) t"
    proof (cases ps)
      case Nil
      with eq have "prefix t (c # cs)" by (simp add: prefix_def)
      then show ?thesis by simp
    next
      case (Cons p ps')
      with eq have "cs = ps' @ t @ ss" by simp
      with Cons.IH have "includes_s cs t" by blast
      then show ?thesis by simp
    qed
  qed
qed

lemma replace_sections_eq:
  "replace_sections e s old r =
     (map (\<lambda>x. if includes_s x (tag e) then s else x) old,
      r \<or> (\<exists>x\<in>set old. includes_s x (tag e)))"
  by (induction old arbitrary: r) auto

lemma replace_or_append_section_eq:
  "replace_or_append_section e s old =
     (if \<exists>x\<in>set old. includes_s x (tag e)
      then map (\<lambda>x. if includes_s x (tag e) then s else x) old
      else old @ [s])"
proof -
  have "\<forall>x\<in>set old. \<not> includes_s x (tag e) \<Longrightarrow>
        map (\<lambda>x. if includes_s x (tag e) then s else x) old = old"
    by (induction old) auto
  then show ?thesis
    by (auto simp: replace_or_append_section_def replace_sections_eq)
qed

section \<open>Splitting a rendered body\<close>

text \<open>
  The separator starts and ends with a newline and has no other: an occurrence that
  begins inside a piece and ends inside the separator that follows the piece exists
  exactly when the piece ends with the separator less its last newline.
\<close>

lemma length_separator: "length separator = 20"
  by (simp add: separator_def)

lemma separator_overlap:
  assumes pre: "prefix separator (s @ separator @ rest)" and ne: "s \<noteq> []"
  shows "includes_s s separator \<or> s = ''\<newline><!-- SEPARATOR -->''"
proof -
  from pre consider (inside) "prefix separator s"
    | (across) us where "separator = s @ us" "prefix us (separator @ rest)"
    by (auto simp: prefix_append)
  then show ?thesis
  proof cases
    case inside
    then obtain ss where "s = [] @ separator @ ss" by (auto simp: prefix_def)
    then show ?thesis unfolding includes_s_iff by blast
  next
    case across
    have len: "length s + length us = 20"
      using arg_cong [OF across(1), of length] by (simp add: separator_def)
    show ?thesis
    proof (cases us)
      case Nil
      with across(1) have "s = [] @ separator @ []" by simp
      then show ?thesis unfolding includes_s_iff by blast
    next
      case (Cons u us')
      from across(2) len ne have "prefix us separator"
        by (cases s) (auto simp: prefix_append length_separator)
      with Cons have u: "u = CHR ''\<newline>''" by (simp add: separator_def)
      from across(1) ne obtain s0 where s: "s = CHR ''\<newline>'' # s0"
        by (cases s) (auto simp: separator_def)
      from across(1) have "''<!-- SEPARATOR -->'' @ ''\<newline>'' = s0 @ CHR ''\<newline>'' # us'"
        unfolding s Cons u by (simp add: separator_def)
      then have "s0 = ''<!-- SEPARATOR -->''"
        unfolding append_eq_append_conv2 by (auto simp: Cons_eq_append_conv append_eq_Cons_conv)
      with s show ?thesis by simp
    qed
  qed
qed

lemma split_from_last:
  "\<not> includes_s s sep \<Longrightarrow> split_from sep cur s = [cur @ s]"
  by (induction s arbitrary: cur) auto

lemma split_from_separator:
  "split_from separator cur (separator @ rest) = cur # split_from separator [] rest"
  by (simp add: separator_def)

lemma split_from_piece:
  "\<not> includes_s s separator \<Longrightarrow> \<not> suffix ''\<newline><!-- SEPARATOR -->'' s \<Longrightarrow>
   split_from separator cur (s @ separator @ rest) = (cur @ s) # split_from separator [] rest"
proof (induction s arbitrary: cur)
  case Nil
  show ?case by (simp add: split_from_separator)
next
  case (Cons c s)
  have "\<not> prefix separator ((c # s) @ separator @ rest)"
    using separator_overlap [of "c # s" rest] Cons.prems by auto
  then have "split_from separator cur ((c # s) @ separator @ rest) =
             split_from separator (cur @ [c]) (s @ separator @ rest)"
    by simp
  also have "\<dots> = ((cur @ [c]) @ s) # split_from separator [] rest"
    using Cons.prems by (intro Cons.IH) (auto simp: suffix_Cons)
  finally show ?case by simp
qed

lemma split_from_join:
  "xs \<noteq> [] \<Longrightarrow>
   \<forall>x\<in>set (butlast xs). \<not> includes_s x separator \<and> \<not> suffix ''\<newline><!-- SEPARATOR -->'' x \<Longrightarrow>
   \<not> includes_s (last xs) separator \<Longrightarrow>
   split_from separator cur (join xs separator) = (cur @ hd xs) # tl xs"
proof (induction xs arbitrary: cur)
  case Nil
  then show ?case by simp
next
  case (Cons x xs)
  show ?case
  proof (cases xs)
    case Nil
    with Cons.prems show ?thesis by (simp add: split_from_last)
  next
    case (Cons y ys)
    have "split_from separator cur (join (x # xs) separator) =
          (cur @ x) # split_from separator [] (join xs separator)"
      using Cons.prems Cons by (simp add: split_from_piece)
    also have "split_from separator [] (join xs separator) = ([] @ hd xs) # tl xs"
      using Cons.prems Cons by (intro Cons.IH) auto
    finally show ?thesis using Cons by simp
  qed
qed

lemma signature_no_suffix: "\<not> suffix ''\<newline><!-- SEPARATOR -->'' (signature e)"
proof
  assume "suffix ''\<newline><!-- SEPARATOR -->'' (signature e)"
  then obtain zs where "signature e = zs @ ''\<newline><!-- SEPARATOR -->''"
    by (auto simp: suffix_def)
  then have "last (signature e) = CHR ''>''" by simp
  then show False by (simp add: signature_def)
qed

text \<open>
  Claim C2, as amended. The round trip \<open>split_body (generate_body sections) = sections\<close>
  holds for every list of sections in which no element contains the separator or the
  signature, provided also that the signature itself does not contain the separator
  and that no element other than the last ends with the separator less its final
  newline (such an ending and the newline that starts the following separator form an
  earlier occurrence of the separator).
\<close>

theorem split_body_generate_body:
  assumes sig: "\<not> includes_s (signature e) separator"
    and secs: "\<forall>s\<in>set sections. \<not> includes_s s separator \<and> \<not> includes_s s (signature e)"
    and ends: "\<forall>s\<in>set (butlast sections). \<not> suffix ''\<newline><!-- SEPARATOR -->'' s"
  shows "split_body e (generate_body e sections) = sections"
proof -
  let ?xs = "signature e # sections"
  have a: "\<forall>x\<in>set (butlast ?xs). \<not> includes_s x separator \<and> \<not> suffix ''\<newline><!-- SEPARATOR -->'' x"
    using sig secs ends signature_no_suffix by (auto dest: in_set_butlastD)
  have b: "\<not> includes_s (last ?xs) separator"
    using sig secs by auto
  have "split_from separator [] (join ?xs separator) = ([] @ hd ?xs) # tl ?xs"
    using a b by (intro split_from_join) simp
  then have "split (generate_body e sections) separator = signature e # sections"
    by (simp add: split_def generate_body_def separator_def)
  moreover have "includes_s (signature e) (signature e)"
    unfolding includes_s_iff by (metis append_Nil append_Nil2)
  moreover have "filter (\<lambda>s. \<not> includes_s s (signature e)) sections = sections"
    using secs by (simp add: filter_id_conv)
  ultimately show ?thesis by (simp add: split_body_def)
qed

theorem split_body_generate_body_witness:
  "\<not> includes_s (signature example_env) separator \<and>
   \<not> includes_s ''<!-- WORKFLOW:X -->\<newline>### X\<newline>No jobs failed :+1:'' separator \<and>
   \<not> includes_s ''<!-- WORKFLOW:X -->\<newline>### X\<newline>No jobs failed :+1:'' (signature example_env) \<and>
   \<not> includes_s ''<!-- WORKFLOW:Y -->\<newline>### Y'' separator \<and>
   \<not> includes_s ''<!-- WORKFLOW:Y -->\<newline>### Y'' (signature example_env) \<and>
   \<not> suffix ''\<newline><!-- SEPARATOR -->'' ''<!-- WORKFLOW:X -->\<newline>### X\<newline>No jobs failed :+1:'' \<and>
   split_body example_env
     (generate_body example_env
        [''<!-- WORKFLOW:X -->\<newline>### X\<newline>No jobs failed :+1:'', ''<!-- WORKFLOW:Y -->\<newline>### Y''])
     = [''<!-- WORKFLOW:X -->\<newline>### X\<newline>No jobs failed :+1:'', ''<!-- WORKFLOW:Y -->\<newline>### Y'']"
proof -
  let ?a = "''<!-- WORKFLOW:X -->\<newline>### X\<newline>No jobs failed :+1:''"
  let ?b = "''<!-- WORKFLOW:Y -->\<newline>### Y''"
  have sig: "\<not> includes_s (signature example_env) separator" by code_simp
  have a: "\<not> includes_s ?a separator" "\<not> includes_s ?a (signature example_env)" by code_simp+
  have b: "\<not> includes_s ?b separator" "\<not> includes_s ?b (signature example_env)" by code_simp+
  have e: "\<not> suffix ''\<newline><!-- SEPARATOR -->'' ?a" by code_simp
  have secs: "\<forall>s\<in>set [?a, ?b]. \<not> includes_s s separator \<and> \<not> includes_s s (signature example_env)"
    using a b by (simp del: includes_s.simps)
  have ends: "\<forall>s\<in>set (butlast [?a, ?b]). \<not> suffix ''\<newline><!-- SEPARATOR -->'' s"
    using e by (simp del: suffix_Cons)
  have "split_body example_env (generate_body example_env [?a, ?b]) = [?a, ?b]"
    by (rule split_body_generate_body [OF sig secs ends])
  with sig a b e show ?thesis by (intro conjI)
qed

text \<open>
  Claim C2 as stated fails: neither section below contains the separator or the
  signature, and the rendered body does not parse back to the two sections, because
  the first one ends with the separator less its final newline. It also fails on the
  empty list of sections when \<open>head_commit\<close> contains the separator: the signature
  is then split in two pieces, none of which contains the signature.
\<close>

theorem split_body_generate_body_counterexample:
  "\<not> includes_s ''\<newline><!-- SEPARATOR -->'' separator \<and>
   \<not> includes_s ''\<newline><!-- SEPARATOR -->'' (signature example_env) \<and>
   \<not> includes_s ''b'' separator \<and> \<not> includes_s ''b'' (signature example_env) \<and>
   split_body example_env (generate_body example_env [''\<newline><!-- SEPARATOR -->'', ''b''])
     = [[], ''<!-- SEPARATOR -->\<newline>b''] \<and>
   split_body example_env (generate_body example_env [''\<newline><!-- SEPARATOR -->'', ''b''])
     \<noteq> [''\<newline><!-- SEPARATOR -->'', ''b''] \<and>
   split_body (example_env\<lparr>head_commit := ''\<newline><!-- SEPARATOR -->\<newline>''\<rparr>)
     (generate_body (example_env\<lparr>head_commit := ''\<newline><!-- SEPARATOR -->\<newline>''\<rparr>) [])
     = [''GitHub Action status on '', '' generated by comment-failure-action''] \<and>
   split_body (example_env\<lparr>head_commit := ''\<newline><!-- SEPARATOR -->\<newline>''\<rparr>)
     (generate_body (example_env\<lparr>head_commit := ''\<newline><!-- SEPARATOR -->\<newline>''\<rparr>) [])
     \<noteq> []"
  by code_simp

section \<open>Reconciling the section list\<close>

text \<open>
  Claim C1, as amended. When at least one old section (so also when two or more)
  carries the ownership tag, \<open>replace_or_append_section\<close> puts the new section in
  the place of every old section that carries the tag, keeps every other section at
  its position, and appends nothing: on \<open>[A(tag X), B(tag Y), C(tag X)]\<close> the result
  is \<open>[s, B, s]\<close>.
\<close>

theorem replace_or_append_section_replaces_all:
  assumes "\<exists>x\<in>set old. includes_s x (tag e)"
  shows "replace_or_append_section e s old =
         map (\<lambda>x. if includes_s x (tag e) then s else x) old"
  using assms by (simp add: replace_or_append_section_eq)

theorem replace_or_append_section_replaces_all_witness:
  "includes_s ''<!-- WORKFLOW:X -->A'' (tag example_env) \<and>
   replace_or_append_section example_env ''<!-- WORKFLOW:X -->new''
     [''<!-- WORKFLOW:X -->A'', ''<!-- WORKFLOW:Y -->B'', ''<!-- WORKFLOW:X -->C'']
   = [''<!-- WORKFLOW:X -->new'', ''<!-- WORKFLOW:Y -->B'', ''<!-- WORKFLOW:X -->new'']"
proof -
  let ?old = "[''<!-- WORKFLOW:X -->A'', ''<!-- WORKFLOW:Y -->B'', ''<!-- WORKFLOW:X -->C'']"
  have a: "includes_s ''<!-- WORKFLOW:X -->A'' (tag example_env)" by code_simp
  then have h: "\<exists>x\<in>set ?old. includes_s x (tag example_env)"
    by (simp del: includes_s.simps)
  have "replace_or_append_section example_env ''<!-- WORKFLOW:X -->new'' ?old =
        map (\<lambda>x. if includes_s x (tag example_env) then ''<!-- WORKFLOW:X -->new'' else x) ?old"
    by (rule replace_or_append_section_replaces_all [OF h])
  also have "\<dots> = [''<!-- WORKFLOW:X -->new'', ''<!-- WORKFLOW:Y -->B'', ''<!-- WORKFLOW:X -->new'']"
    by code_simp
  finally show ?thesis using a by (intro conjI)
qed

text \<open>
  Claim C1 as stated fails: the new section and the old sections \<open>A\<close> and \<open>C\<close> carry
  the tag of workflow \<open>X\<close>, \<open>B\<close> does not, and the result is not \<open>[s, B, C]\<close>: the
  later duplicate \<open>C\<close> is replaced as well.
\<close>

theorem replace_or_append_section_first_only_counterexample:
  "includes_s ''<!-- WORKFLOW:X -->new'' (tag example_env) \<and>
   includes_s ''<!-- WORKFLOW:X -->A'' (tag example_env) \<and>
   \<not> includes_s ''<!-- WORKFLOW:Y -->B'' (tag example_env) \<and>
   includes_s ''<!-- WORKFLOW:X -->C'' (tag example_env) \<and>
   replace_or_append_section example_env ''<!-- WORKFLOW:X -->new''
     [''<!-- WORKFLOW:X -->A'', ''<!-- WORKFLOW:Y -->B'', ''<!-- WORKFLOW:X -->C'']
   \<noteq> [''<!-- WORKFLOW:X -->new'', ''<!-- WORKFLOW:Y -->B'', ''<!-- WORKFLOW:X -->C'']"
  by code_simp

text \<open>
  Claim C3, as amended. Reconciling twice with the same new section is reconciling
  once, for every old section list and every new section that contains the ownership
  tag of the invocation.
\<close>

theorem replace_or_append_section_idempotent:
  assumes "includes_s s (tag e)"
  shows "replace_or_append_section e s (replace_or_append_section e s old) =
         replace_or_append_section e s old"
proof -
  let ?f = "\<lambda>x. if includes_s x (tag e) then s else x"
  have ff: "?f (?f x) = ?f x" for x
    using assms by simp
  show ?thesis
  proof (cases "\<exists>x\<in>set old. includes_s x (tag e)")
    case True
    then have first: "replace_or_append_section e s old = map ?f old"
      by (simp add: replace_or_append_section_eq)
    from True obtain x where "x \<in> set old" "includes_s x (tag e)" by blast
    then have "?f x \<in> set (map ?f old)" "includes_s (?f x) (tag e)"
      using assms by (simp_all del: includes_s.simps)
    then have "\<exists>y\<in>set (map ?f old). includes_s y (tag e)" by blast
    then have "replace_or_append_section e s (map ?f old) = map ?f (map ?f old)"
      by (simp only: replace_or_append_section_eq if_True)
    also have "\<dots> = map ?f old"
      using ff by (simp only: map_map comp_def)
    finally show ?thesis by (simp only: first)
  next
    case False
    then have first: "replace_or_append_section e s old = old @ [s]"
      by (simp add: replace_or_append_section_eq)
    from False have same: "map ?f old = old"
      by (induction old) simp_all
    have "\<exists>y\<in>set (old @ [s]). includes_s y (tag e)"
      using assms by simp
    then have "replace_or_append_section e s (old @ [s]) = map ?f (old @ [s])"
      by (simp only: replace_or_append_section_eq if_True)
    also have "\<dots> = old @ [s]"
      using assms same by simp
    finally show ?thesis by (simp only: first)
  qed
qed

theorem replace_or_append_section_idempotent_witness:
  "includes_s ''<!-- WORKFLOW:X -->new'' (tag example_env) \<and>
   replace_or_append_section example_env ''<!-- WORKFLOW:X -->new''
     (replace_or_append_section example_env ''<!-- WORKFLOW:X -->new'' [''<!-- WORKFLOW:Y -->B''])
   = replace_or_append_section example_env ''<!-- WORKFLOW:X -->new'' [''<!-- WORKFLOW:Y -->B''] \<and>
   replace_or_append_section example_env ''<!-- WORKFLOW:X -->new'' [''<!-- WORKFLOW:Y -->B'']
   = [''<!-- WORKFLOW:Y -->B'', ''<!-- WORKFLOW:X -->new'']"
proof -
  have h: "includes_s ''<!-- WORKFLOW:X -->new'' (tag example_env)" by code_simp
  have r: "replace_or_append_section example_env ''<!-- WORKFLOW:X -->new'' [''<!-- WORKFLOW:Y -->B'']
           = [''<!-- WORKFLOW:Y -->B'', ''<!-- WORKFLOW:X -->new'']" by code_simp
  have i: "replace_or_append_section example_env ''<!-- WORKFLOW:X -->new''
     (replace_or_append_section example_env ''<!-- WORKFLOW:X -->new'' [''<!-- WORKFLOW:Y -->B''])
   = replace_or_append_section example_env ''<!-- WORKFLOW:X -->new'' [''<!-- WORKFLOW:Y -->B'']"
    by (rule replace_or_append_section_idempotent [OF h])
  show ?thesis by (rule conjI [OF h conjI [OF i r]])
qed

text \<open>
  Claim C3 as stated fails for a new section without the tag: it is appended at each
  pass.
\<close>

theorem replace_or_append_section_idempotent_counterexample:
  "replace_or_append_section example_env ''x'' (replace_or_append_section example_env ''x'' [])
     = [''x'', ''x''] \<and>
   replace_or_append_section example_env ''x'' [] = [''x''] \<and>
   replace_or_append_section example_env ''x'' (replace_or_append_section example_env ''x'' [])
     \<noteq> replace_or_append_section example_env ''x'' []"
  by code_simp

section \<open>Rendering\<close>

lemma join_Cons: "join (x # xs) sep = x @ concat (map (\<lambda>s. sep @ s) xs)"
  by (induction xs arbitrary: x) simp_all

lemma generate_body_grammar:
  "generate_body e sections =
     ''GitHub Action status on '' @ head_commit e @ '' generated by comment-failure-action'' @
     concat (map (\<lambda>s. ''\<newline><!-- SEPARATOR -->\<newline>'' @ s) sections)"
  by (simp add: generate_body_def join_Cons signature_def separator_def)

lemma generate_section_tag_line:
  "prefix (''<!-- WORKFLOW:'' @ workflow e @ '' -->\<newline>'') (generate_section e failed_runs)"
  by (simp add: generate_section_def tag_def prefix_def)

lemma section_in_replace_or_append_section:
  "section \<in> set (replace_or_append_section e section old)"
  by (auto simp: replace_or_append_section_eq)

section \<open>The requests a run sends\<close>

lemma sends_only_return: "sends_only P (return_a x)"
  by (simp add: sends_only_def return_a_def)

lemma sends_only_throw: "sends_only P (throw_a x)"
  by (simp add: sends_only_def throw_a_def)

lemma sends_only_pure: "sends_only P (\<lambda>s. (x, s))"
  by (simp add: sends_only_def)

lemma sends_only_core_info: "sends_only P (core_info msg)"
  by (simp add: sends_only_def core_info_def)

lemma sends_only_paginate: "P r \<Longrightarrow> sends_only P (paginate endpoint r)"
  by (auto simp: sends_only_def paginate_def split: option.splits)

lemma sends_only_send: "P r \<Longrightarrow> sends_only P (send k r)"
  by (auto simp: sends_only_def send_def)

lemma sends_only_await:
  assumes m: "sends_only P m" and f: "\<And>x. sends_only P (f x)"
  shows "sends_only P (await m f)"
  unfolding sends_only_def
proof
  fix s
  from m obtain n1 where n1: "journal (snd (m s)) = journal s @ n1" "list_all P n1"
    unfolding sends_only_def by blast
  show "\<exists>new. journal (snd (await m f s)) = journal s @ new \<and> list_all P new"
  proof (cases "m s")
    case (Pair r s')
    show ?thesis
    proof (cases r)
      case (Inl err)
      with Pair n1 show ?thesis by (auto simp: await_def)
    next
      case (Inr x)
      from f [of x] obtain n2 where "journal (snd (f x s')) = journal s' @ n2" "list_all P n2"
        unfolding sends_only_def by blast
      with Pair Inr n1 have "journal (snd (await m f s)) = journal s @ (n1 @ n2) \<and> list_all P (n1 @ n2)"
        by (simp add: await_def)
      then show ?thesis by blast
    qed
  qed
qed

lemma sends_only_for_of:
  "(\<And>x. sends_only P (f x)) \<Longrightarrow> sends_only P (for_of xs f)"
  by (induction xs) (simp_all add: sends_only_return sends_only_await)

lemma sends_only_mono:
  assumes "sends_only P m" and "\<And>r. P r \<Longrightarrow> Q r"
  shows "sends_only Q m"
  unfolding sends_only_def
proof
  fix s
  from assms(1) obtain new where "journal (snd (m s)) = journal s @ new" "list_all P new"
    unfolding sends_only_def by blast
  moreover from this assms(2) have "list_all Q new" by (simp add: list_all_iff)
  ultimately show "\<exists>new. journal (snd (m s)) = journal s @ new \<and> list_all Q new" by blast
qed

lemma sends_only_prefix:
  "sends_only P m \<Longrightarrow> prefix (journal s) (journal (snd (m s)))"
  unfolding sends_only_def by (metis prefixI)

lemma for_of_append:
  "for_of (xs @ ys) f = await (for_of xs f) (\<lambda>_. for_of ys f)"
proof (induction xs)
  case Nil
  show ?case by (rule ext) (simp add: await_def return_a_def)
next
  case (Cons x xs)
  show ?case
    by (rule ext) (simp add: Cons await_def split: prod.splits sum.splits)
qed

lemma find_e_guarded:
  "find_e (\<lambda>c. if body c \<noteq> None then includes_m (body c) sig else Inr False) cs =
   Inr (List.find (\<lambda>c. case body c of None \<Rightarrow> False | Some b \<Rightarrow> includes_s b sig) cs)"
  by (induction cs) (auto simp: includes_m_def split: option.splits)

lemma find_e_defined:
  "find_e (\<lambda>c. if body c \<noteq> None then includes_m (body c) sig else Inr False) cs =
   find_e (\<lambda>c. includes_m (body c) sig) (filter (\<lambda>c. body c \<noteq> None) cs)"
  by (induction cs) (auto simp: includes_m_def split: option.splits)

lemma find_comment_eq:
  "find_comment e k pr s =
     (case comments k (journal s) (Issues_listComments (owner e) (repo e) (number pr)) of
        None \<Rightarrow> (Inl RequestError,
                  s\<lparr>journal := journal s @ [Issues_listComments (owner e) (repo e) (number pr)]\<rparr>)
      | Some cs \<Rightarrow>
          (Inr (List.find (\<lambda>c. case body c of None \<Rightarrow> False
                                | Some b \<Rightarrow> includes_s b (signature e)) cs),
           s\<lparr>journal := journal s @ [Issues_listComments (owner e) (repo e) (number pr)]\<rparr>))"
  unfolding find_comment_def await_def paginate_def find_e_guarded
  by (simp split: option.splits)

lemma find_comment_None:
  assumes "find_comment e k pr s = (Inr None, s')"
  shows "s' = s\<lparr>journal := journal s @ [Issues_listComments (owner e) (repo e) (number pr)]\<rparr>"
  using assms by (auto simp: find_comment_eq split: option.splits)

lemma run_loop:
  assumes "is_pull_request e"
    and "find_pull_requests e k s0 = (Inr prs, s1)"
    and "prs \<noteq> []"
    and "find_failed_check_runs e k s1 = (Inr failed_runs, s2)"
  shows "run e k s0 = for_of prs (run_pr e k (generate_section e failed_runs) failed_runs) s2"
  using assms by (simp add: run_def await_def)

lemma for_of_at:
  assumes "i < length prs" and "for_of (take i prs) f s2 = (Inr (), s3)"
  shows "for_of prs f s2 = await (f (prs ! i)) (\<lambda>_. for_of (drop (Suc i) prs) f) s3"
proof -
  have "prs = take i prs @ prs ! i # drop (Suc i) prs"
    using assms(1) by (simp add: id_take_nth_drop)
  then have "for_of prs f s2 = for_of (take i prs @ prs ! i # drop (Suc i) prs) f s2"
    by simp
  also have "\<dots> = await (for_of (take i prs) f) (\<lambda>_. for_of (prs ! i # drop (Suc i) prs) f) s2"
    by (simp only: for_of_append)
  also have "\<dots> = for_of (prs ! i # drop (Suc i) prs) f s3"
    using assms(2) by (simp add: await_def)
  finally show ?thesis by simp
qed

lemma run_pr_found:
  assumes "find_comment e k pr s = (Inr (Some c), s')" and "body c = Some b"
  shows "run_pr e k section failed_runs pr s =
         await (send k (Issues_updateComment (owner e) (repo e) (ident c)
                   (generate_body e (replace_or_append_section e section (split_body e b)))))
           (\<lambda>_. await (core_info ''Updated comment'') (\<lambda>_. add_label e k pr)) s'"
  using assms by (simp add: run_pr_def await_def update_comment_def)

lemma run_pr_absent_clear:
  assumes "find_comment e k pr s = (Inr None, s')"
  shows "run_pr e k section [] pr s = (Inr (), s')"
  using assms by (simp add: run_pr_def await_def return_a_def)

lemma sends_only_find_comment: "sends_only (conforms e section) (find_comment e k pr)"
  unfolding find_comment_def
  by (intro sends_only_await sends_only_paginate sends_only_pure) (simp add: conforms_def)

lemma sends_only_add_label: "sends_only (conforms e section) (add_label e k pr)"
  unfolding add_label_def by (intro sends_only_send) (simp add: conforms_def)

lemma sends_only_update_comment:
  "sends_only (conforms e section) (update_comment e k c section)"
proof (cases "body c")
  case None
  then show ?thesis by (simp add: update_comment_def sends_only_throw)
next
  case (Some b)
  have "conforms e section (Issues_updateComment (owner e) (repo e) (ident c)
          (generate_body e (replace_or_append_section e section (split_body e b))))"
    unfolding conforms_def using section_in_replace_or_append_section by auto
  then show ?thesis using Some by (simp add: update_comment_def sends_only_send)
qed

lemma sends_only_create_comment:
  "sends_only (conforms e section) (create_comment e k pr section)"
proof -
  have "conforms e section (Issues_createComment (owner e) (repo e) (number pr)
          (generate_body e [section]))"
    unfolding conforms_def by auto
  then show ?thesis by (simp add: create_comment_def sends_only_send)
qed

lemma sends_only_run_pr:
  "sends_only (conforms e section) (run_pr e k section failed_runs pr)"
  unfolding run_pr_def
proof (rule sends_only_await [OF sends_only_find_comment])
  fix comment
  show "sends_only (conforms e section)
          (case comment of
             None \<Rightarrow> if 0 < length failed_runs
                     then await (create_comment e k pr section)
                            (\<lambda>_. await (core_info ''Created comment'') (\<lambda>_. add_label e k pr))
                     else return_a ()
           | Some c \<Rightarrow> await (update_comment e k c section)
                        (\<lambda>_. await (core_info ''Updated comment'') (\<lambda>_. add_label e k pr)))"
    by (cases comment)
       (auto intro!: sends_only_await sends_only_create_comment sends_only_update_comment
          sends_only_core_info sends_only_add_label sends_only_return)
qed

lemma sends_only_loop:
  "sends_only (\<lambda>_. True) (for_of prs (run_pr e k section failed_runs))"
  by (rule sends_only_for_of) (rule sends_only_mono [OF sends_only_run_pr], simp)

lemma sends_only_run:
  "sends_only (\<lambda>r. \<exists>failed_runs. conforms e (generate_section e failed_runs) r) (run e k)"
proof -
  let ?P = "\<lambda>r. \<exists>failed_runs. conforms e (generate_section e failed_runs) r"
  have quiet: "?P r" if "written_body r = None" for r
    using that by (simp add: conforms_def)
  have pulls: "sends_only ?P (find_pull_requests e k)"
    unfolding find_pull_requests_def by (rule sends_only_paginate) (simp add: quiet)
  have runs: "sends_only ?P (find_failed_check_runs e k)"
    unfolding find_failed_check_runs_def
    by (intro sends_only_await sends_only_paginate sends_only_return) (simp add: quiet)
  have loop: "sends_only ?P (for_of prs (run_pr e k (generate_section e failed_runs) failed_runs))"
    for prs failed_runs
    by (rule sends_only_for_of) (rule sends_only_mono [OF sends_only_run_pr], blast)
  show ?thesis
    unfolding run_def
    by (auto intro!: sends_only_await sends_only_core_info pulls runs loop simp: Let_def)
qed

section \<open>The orchestration\<close>

text \<open>
  Claim C4. Take a run that passes the test of \<open>is_pull_request\<close>, lists the pull requests
  \<open>prs\<close> and the failed runs \<open>failed_runs\<close> (empty or not), and reaches pull request
  number \<open>i\<close> of the list in state \<open>s3\<close>; let \<open>find_comment\<close> find there the comment
  \<open>c\<close> with body \<open>b\<close>. Then the next request of the run is the update of the comment
  with the identifier of \<open>c\<close>, whose body is rendered from the sections of \<open>b\<close>
  reconciled with the new section; and when the remote accepts that update, the
  request after it adds the label \<open>waiting-response\<close> to that pull request.
\<close>

theorem run_updates_found_comment:
  assumes "is_pull_request e"
    and "find_pull_requests e k s0 = (Inr prs, s1)"
    and "find_failed_check_runs e k s1 = (Inr failed_runs, s2)"
    and "i < length prs"
    and "for_of (take i prs) (run_pr e k (generate_section e failed_runs) failed_runs) s2 = (Inr (), s3)"
    and "find_comment e k (prs ! i) s3 = (Inr (Some c), s4)"
    and "body c = Some b"
  shows "prefix (journal s4 @
           [Issues_updateComment (owner e) (repo e) (ident c)
              (generate_body e
                 (replace_or_append_section e (generate_section e failed_runs) (split_body e b)))])
           (journal (snd (run e k s0))) \<and>
         (accepts k (journal s4)
            (Issues_updateComment (owner e) (repo e) (ident c)
               (generate_body e
                  (replace_or_append_section e (generate_section e failed_runs) (split_body e b))))
          \<longrightarrow>
          prefix (journal s4 @
            [Issues_updateComment (owner e) (repo e) (ident c)
               (generate_body e
                  (replace_or_append_section e (generate_section e failed_runs) (split_body e b))),
             Issues_addLabels (owner e) (repo e) (number (prs ! i)) ''waiting-response''])
            (journal (snd (run e k s0))))"
proof -
  let ?section = "generate_section e failed_runs"
  let ?f = "run_pr e k ?section failed_runs"
  let ?upd = "Issues_updateComment (owner e) (repo e) (ident c)
                (generate_body e (replace_or_append_section e ?section (split_body e b)))"
  let ?lab = "Issues_addLabels (owner e) (repo e) (number (prs ! i)) ''waiting-response''"
  let ?rest = "for_of (drop (Suc i) prs) ?f"
  from assms(4) have "prs \<noteq> []" by auto
  with assms have "run e k s0 = for_of prs ?f s2" by (simp add: run_loop)
  also have "\<dots> = await (?f (prs ! i)) (\<lambda>_. ?rest) s3"
    using assms(4,5) by (rule for_of_at)
  finally have run: "run e k s0 = await (?f (prs ! i)) (\<lambda>_. ?rest) s3" .
  have pr: "?f (prs ! i) s3 =
            await (send k ?upd)
              (\<lambda>_. await (core_info ''Updated comment'') (\<lambda>_. add_label e k (prs ! i))) s4"
    using assms(6,7) by (rule run_pr_found)
  show ?thesis
  proof (cases "accepts k (journal s4) ?upd")
    case False
    then have "journal (snd (run e k s0)) = journal s4 @ [?upd]"
      by (simp add: run pr await_def send_def)
    with False show ?thesis by simp
  next
    case True
    let ?s5 = "s4\<lparr>journal := journal s4 @ [?upd], infos := infos s4 @ [''Updated comment'']\<rparr>"
    let ?s6 = "?s5\<lparr>journal := journal s4 @ [?upd, ?lab]\<rparr>"
    have "journal (snd (run e k s0)) = journal ?s6 \<or> run e k s0 = ?rest ?s6"
      using True by (simp add: run pr await_def send_def core_info_def add_label_def)
    moreover have "prefix (journal ?s6) (journal (snd (?rest ?s6)))"
      by (rule sends_only_prefix [OF sends_only_loop])
    ultimately have "prefix (journal s4 @ [?upd, ?lab]) (journal (snd (run e k s0)))"
      by auto
    moreover from this have "prefix (journal s4 @ [?upd]) (journal (snd (run e k s0)))"
      by (auto simp: prefix_def)
    ultimately show ?thesis by blast
  qed
qed

theorem run_updates_found_comment_witness:
  "prefix
     (journal \<lparr>journal = [Pulls_list ''octo'' ''demo'' ''open'' ''octo:feature'',
                          Checks_listForSuite ''octo'' ''demo'' 7 ''completed'',
                          Issues_listComments ''octo'' ''demo'' 5,
                          Issues_listComments ''octo'' ''demo'' 6],
               infos = []\<rparr> @
      [Issues_updateComment (owner example_env) (repo example_env)
         (ident \<lparr>ident = 61, body = Some ''GitHub Action status on abc123 generated by comment-failure-action\<newline><!-- SEPARATOR -->\<newline><!-- WORKFLOW:X -->\<newline>### X\<newline>| job | url |\<newline>|-----|-----|\<newline>| lint | http://x |''\<rparr>)
         (generate_body example_env
            (replace_or_append_section example_env (generate_section example_env [])
               (split_body example_env ''GitHub Action status on abc123 generated by comment-failure-action\<newline><!-- SEPARATOR -->\<newline><!-- WORKFLOW:X -->\<newline>### X\<newline>| job | url |\<newline>|-----|-----|\<newline>| lint | http://x |''))),
       Issues_addLabels (owner example_env) (repo example_env)
         (number ([\<lparr>number = 5\<rparr>, \<lparr>number = 6\<rparr>] ! 1)) ''waiting-response''])
     (journal (snd (run example_env
        (example_remote [\<lparr>number = 5\<rparr>, \<lparr>number = 6\<rparr>]
           [\<lparr>title = ''lint'', html_url = ''http://x'', conclusion = Some ''success''\<rparr>])
        example_start))) \<and>
   journal (snd (run example_env
        (example_remote [\<lparr>number = 5\<rparr>, \<lparr>number = 6\<rparr>]
           [\<lparr>title = ''lint'', html_url = ''http://x'', conclusion = Some ''success''\<rparr>])
        example_start)) =
     [Pulls_list ''octo'' ''demo'' ''open'' ''octo:feature'',
      Checks_listForSuite ''octo'' ''demo'' 7 ''completed'',
      Issues_listComments ''octo'' ''demo'' 5,
      Issues_listComments ''octo'' ''demo'' 6,
      Issues_updateComment ''octo'' ''demo'' 61
        ''GitHub Action status on abc123 generated by comment-failure-action\<newline><!-- SEPARATOR -->\<newline><!-- WORKFLOW:X -->\<newline>### X\<newline>No jobs failed :+1:'',
      Issues_addLabels ''octo'' ''demo'' 6 ''waiting-response'']"
proof -
  let ?k = "example_remote [\<lparr>number = 5\<rparr>, \<lparr>number = 6\<rparr>]
              [\<lparr>title = ''lint'', html_url = ''http://x'', conclusion = Some ''success''\<rparr>]"
  let ?c = "\<lparr>ident = 61, body = Some ''GitHub Action status on abc123 generated by comment-failure-action\<newline><!-- SEPARATOR -->\<newline><!-- WORKFLOW:X -->\<newline>### X\<newline>| job | url |\<newline>|-----|-----|\<newline>| lint | http://x |''\<rparr>"
  let ?s1 = "\<lparr>journal = [Pulls_list ''octo'' ''demo'' ''open'' ''octo:feature''], infos = []\<rparr>"
  let ?s2 = "\<lparr>journal = [Pulls_list ''octo'' ''demo'' ''open'' ''octo:feature'',
                          Checks_listForSuite ''octo'' ''demo'' 7 ''completed''], infos = []\<rparr>"
  let ?s3 = "\<lparr>journal = [Pulls_list ''octo'' ''demo'' ''open'' ''octo:feature'',
                          Checks_listForSuite ''octo'' ''demo'' 7 ''completed'',
                          Issues_listComments ''octo'' ''demo'' 5], infos = []\<rparr>"
  let ?s4 = "\<lparr>journal = [Pulls_list ''octo'' ''demo'' ''open'' ''octo:feature'',
                          Checks_listForSuite ''octo'' ''demo'' 7 ''completed'',
                          Issues_listComments ''octo'' ''demo'' 5,
                          Issues_listComments ''octo'' ''demo'' 6], infos = []\<rparr>"
  have h1: "is_pull_request example_env" by code_simp
  have h2: "find_pull_requests example_env ?k example_start =
              (Inr [\<lparr>number = 5\<rparr>, \<lparr>number = 6\<rparr>], ?s1)" by code_simp
  have h3: "find_failed_check_runs example_env ?k ?s1 = (Inr [], ?s2)" by code_simp
  have h4: "1 < length [\<lparr>number = 5\<rparr>, \<lparr>number = 6\<rparr>]" by simp
  have h5: "for_of (take 1 [\<lparr>number = 5\<rparr>, \<lparr>number = 6\<rparr>])
              (run_pr example_env ?k (generate_section example_env []) []) ?s2 = (Inr (), ?s3)"
    by code_simp
  have h6: "find_comment example_env ?k ([\<lparr>number = 5\<rparr>, \<lparr>number = 6\<rparr>] ! 1) ?s3 =
              (Inr (Some ?c), ?s4)" by code_simp
  have h7: "body ?c = Some ''GitHub Action status on abc123 generated by comment-failure-action\<newline><!-- SEPARATOR -->\<newline><!-- WORKFLOW:X -->\<newline>### X\<newline>| job | url |\<newline>|-----|-----|\<newline>| lint | http://x |''"
    by (simp only: issue_comment.select_convs)
  have acc: "accepts ?k req_journal req" for req_journal req
    by (simp add: example_remote_def)
  have final: "journal (snd (run example_env ?k example_start)) =
     [Pulls_list ''octo'' ''demo'' ''open'' ''octo:feature'',
      Checks_listForSuite ''octo'' ''demo'' 7 ''completed'',
      Issues_listComments ''octo'' ''demo'' 5,
      Issues_listComments ''octo'' ''demo'' 6,
      Issues_updateComment ''octo'' ''demo'' 61
        ''GitHub Action status on abc123 generated by comment-failure-action\<newline><!-- SEPARATOR -->\<newline><!-- WORKFLOW:X -->\<newline>### X\<newline>No jobs failed :+1:'',
      Issues_addLabels ''octo'' ''demo'' 6 ''waiting-response'']"
    by code_simp
  from run_updates_found_comment [OF h1 h2 h3 h4 h5 h6 h7] acc
  show ?thesis using final by (intro conjI) blast+
qed

text \<open>
  Claim C5. In a run whose list of failed check runs is empty, when \<open>find_comment\<close>
  finds no comment for pull request number \<open>i\<close> of the list, the iteration for that
  pull request succeeds having sent only the listing of its comments (no creation,
  no update, no label) and logged nothing, and the run goes on with the pull requests
  after it.
\<close>

theorem run_silent_when_absent_and_clear:
  assumes "is_pull_request e"
    and "find_pull_requests e k s0 = (Inr prs, s1)"
    and "find_failed_check_runs e k s1 = (Inr [], s2)"
    and "i < length prs"
    and "for_of (take i prs) (run_pr e k (generate_section e []) []) s2 = (Inr (), s3)"
    and "find_comment e k (prs ! i) s3 = (Inr None, s4)"
  shows "run_pr e k (generate_section e []) [] (prs ! i) s3 = (Inr (), s4) \<and>
         journal s4 = journal s3 @ [Issues_listComments (owner e) (repo e) (number (prs ! i))] \<and>
         infos s4 = infos s3 \<and>
         run e k s0 = for_of (drop (Suc i) prs) (run_pr e k (generate_section e []) []) s4"
proof -
  let ?f = "run_pr e k (generate_section e []) []"
  have pr: "?f (prs ! i) s3 = (Inr (), s4)"
    using assms(6) by (rule run_pr_absent_clear)
  from assms(4) have "prs \<noteq> []" by auto
  with assms have "run e k s0 = for_of prs ?f s2" by (simp add: run_loop)
  also have "\<dots> = await (?f (prs ! i)) (\<lambda>_. for_of (drop (Suc i) prs) ?f) s3"
    using assms(4,5) by (rule for_of_at)
  also have "\<dots> = for_of (drop (Suc i) prs) ?f s4"
    by (simp add: await_def pr)
  finally have "run e k s0 = for_of (drop (Suc i) prs) ?f s4" .
  with pr find_comment_None [OF assms(6)] show ?thesis by simp
qed

theorem run_silent_when_absent_and_clear_witness:
  "run_pr example_env
     (example_remote [\<lparr>number = 5\<rparr>, \<lparr>number = 6\<rparr>]
        [\<lparr>title = ''lint'', html_url = ''http://x'', conclusion = Some ''success''\<rparr>])
     (generate_section example_env []) [] ([\<lparr>number = 5\<rparr>, \<lparr>number = 6\<rparr>] ! 0)
     \<lparr>journal = [Pulls_list ''octo'' ''demo'' ''open'' ''octo:feature'',
                 Checks_listForSuite ''octo'' ''demo'' 7 ''completed''], infos = []\<rparr>
   = (Inr (),
      \<lparr>journal = [Pulls_list ''octo'' ''demo'' ''open'' ''octo:feature'',
                  Checks_listForSuite ''octo'' ''demo'' 7 ''completed'',
                  Issues_listComments ''octo'' ''demo'' 5], infos = []\<rparr>) \<and>
   journal (snd (run example_env
        (example_remote [\<lparr>number = 5\<rparr>, \<lparr>number = 6\<rparr>]
           [\<lparr>title = ''lint'', html_url = ''http://x'', conclusion = Some ''success''\<rparr>])
        example_start)) =
     [Pulls_list ''octo'' ''demo'' ''open'' ''octo:feature'',
      Checks_listForSuite ''octo'' ''demo'' 7 ''completed'',
      Issues_listComments ''octo'' ''demo'' 5,
      Issues_listComments ''octo'' ''demo'' 6,
      Issues_updateComment ''octo'' ''demo'' 61
        ''GitHub Action status on abc123 generated by comment-failure-action\<newline><!-- SEPARATOR -->\<newline><!-- WORKFLOW:X -->\<newline>### X\<newline>No jobs failed :+1:'',
      Issues_addLabels ''octo'' ''demo'' 6 ''waiting-response'']"
proof -
  let ?k = "example_remote [\<lparr>number = 5\<rparr>, \<lparr>number = 6\<rparr>]
              [\<lparr>title = ''lint'', html_url = ''http://x'', conclusion = Some ''success''\<rparr>]"
  let ?s1 = "\<lparr>journal = [Pulls_list ''octo'' ''demo'' ''open'' ''octo:feature''], infos = []\<rparr>"
  let ?s2 = "\<lparr>journal = [Pulls_list ''octo'' ''demo'' ''open'' ''octo:feature'',
                          Checks_listForSuite ''octo'' ''demo'' 7 ''completed''], infos = []\<rparr>"
  let ?s3 = "\<lparr>journal = [Pulls_list ''octo'' ''demo'' ''open'' ''octo:feature'',
                          Checks_listForSuite ''octo'' ''demo'' 7 ''completed'',
                          Issues_listComments ''octo'' ''demo'' 5], infos = []\<rparr>"
  have h1: "is_pull_request example_env" by code_simp
  have h2: "find_pull_requests example_env ?k example_start =
              (Inr [\<lparr>number = 5\<rparr>, \<lparr>number = 6\<rparr>], ?s1)" by code_simp
  have h3: "find_failed_check_runs example_env ?k ?s1 = (Inr [], ?s2)" by code_simp
  have h4: "0 < length [\<lparr>number = 5\<rparr>, \<lparr>number = 6\<rparr>]" by simp
  have h5: "for_of (take 0 [\<lparr>number = 5\<rparr>, \<lparr>number = 6\<rparr>])
              (run_pr example_env ?k (generate_section example_env []) []) ?s2 = (Inr (), ?s2)"
    by code_simp
  have h6: "find_comment example_env ?k ([\<lparr>number = 5\<rparr>, \<lparr>number = 6\<rparr>] ! 0) ?s2 =
              (Inr None, ?s3)" by code_simp
  have final: "journal (snd (run example_env ?k example_start)) =
     [Pulls_list ''octo'' ''demo'' ''open'' ''octo:feature'',
      Checks_listForSuite ''octo'' ''demo'' 7 ''completed'',
      Issues_listComments ''octo'' ''demo'' 5,
      Issues_listComments ''octo'' ''demo'' 6,
      Issues_updateComment ''octo'' ''demo'' 61
        ''GitHub Action status on abc123 generated by comment-failure-action\<newline><!-- SEPARATOR -->\<newline><!-- WORKFLOW:X -->\<newline>### X\<newline>No jobs failed :+1:'',
      Issues_addLabels ''octo'' ''demo'' 6 ''waiting-response'']"
    by code_simp
  from run_silent_when_absent_and_clear [OF h1 h2 h3 h4 h5 h6]
  have "run_pr example_env ?k (generate_section example_env []) []
          ([\<lparr>number = 5\<rparr>, \<lparr>number = 6\<rparr>] ! 0) ?s2 = (Inr (), ?s3)"
    by (rule conjunct1)
  then show ?thesis using final by (rule conjI)
qed

text \<open>
  Claim C6. When \<open>head_branch\<close> is \<open>undefined\<close>, \<open>null\<close> or the empty string, \<open>run\<close>
  returns successfully, having logged the line \<open>Invoked without pull request\<close> and
  sent no request to the remote at all.
\<close>

theorem run_without_branch:
  assumes "head_branch e = Undefined \<or> head_branch e = Null \<or> head_branch e = Str []"
  shows "run e k s = (Inr (), s\<lparr>infos := infos s @ [''Invoked without pull request'']\<rparr>) \<and>
         journal (snd (run e k s)) = journal s"
  using assms by (auto simp: run_def is_pull_request_def core_info_def)

theorem run_without_branch_witness:
  "run (example_env\<lparr>head_branch := Str []\<rparr>)
     (example_remote [\<lparr>number = 5\<rparr>]
        [\<lparr>title = ''lint'', html_url = ''http://x'', conclusion = Some ''failure''\<rparr>])
     example_start
   = (Inr (), \<lparr>journal = [], infos = [''Invoked without pull request'']\<rparr>) \<and>
   run (example_env\<lparr>head_branch := Undefined\<rparr>)
     (example_remote [\<lparr>number = 5\<rparr>]
        [\<lparr>title = ''lint'', html_url = ''http://x'', conclusion = Some ''failure''\<rparr>])
     example_start
   = (Inr (), \<lparr>journal = [], infos = [''Invoked without pull request'']\<rparr>) \<and>
   run (example_env\<lparr>head_branch := Null\<rparr>)
     (example_remote [\<lparr>number = 5\<rparr>]
        [\<lparr>title = ''lint'', html_url = ''http://x'', conclusion = Some ''failure''\<rparr>])
     example_start
   = (Inr (), \<lparr>journal = [], infos = [''Invoked without pull request'']\<rparr>)"
proof -
  let ?k = "example_remote [\<lparr>number = 5\<rparr>]
              [\<lparr>title = ''lint'', html_url = ''http://x'', conclusion = Some ''failure''\<rparr>]"
  have s: "example_start\<lparr>infos := infos example_start @ [''Invoked without pull request'']\<rparr>
           = \<lparr>journal = [], infos = [''Invoked without pull request'']\<rparr>"
    by (simp add: example_start_def)
  have "run (example_env\<lparr>head_branch := b\<rparr>) ?k example_start
        = (Inr (), \<lparr>journal = [], infos = [''Invoked without pull request'']\<rparr>)"
    if "b = Undefined \<or> b = Null \<or> b = Str []" for b
    using run_without_branch [of "example_env\<lparr>head_branch := b\<rparr>" ?k example_start] that
    by (simp add: s)
  from this [of "Str []"] this [of Undefined] this [of Null] show ?thesis by simp
qed

text \<open>
  Claim C7. \<open>find_failed_check_runs\<close> asks for the completed check runs of the check
  suite of the environment and, when the remote answers, returns those of the answer
  whose conclusion is neither \<open>success\<close> nor \<open>neutral\<close>, in the order of the answer:
  a run of the answer is returned exactly when its conclusion is any other value.
\<close>

theorem find_failed_check_runs_filters:
  assumes "check_runs k (journal s)
             (Checks_listForSuite (owner e) (repo e) (check_suite_id e) ''completed'') = Some response"
  shows "\<exists>failed_runs.
           find_failed_check_runs e k s =
             (Inr failed_runs,
              s\<lparr>journal := journal s @
                  [Checks_listForSuite (owner e) (repo e) (check_suite_id e) ''completed'']\<rparr>) \<and>
           failed_runs = filter (\<lambda>r. conclusion r \<notin> {Some ''success'', Some ''neutral''}) response \<and>
           subseq failed_runs response \<and>
           (\<forall>r\<in>set response.
              r \<in> set failed_runs \<longleftrightarrow>
              conclusion r \<noteq> Some ''success'' \<and> conclusion r \<noteq> Some ''neutral'')"
proof -
  let ?failed = "filter (\<lambda>r. conclusion r \<noteq> Some ''success'' \<and> conclusion r \<noteq> Some ''neutral'') response"
  have "find_failed_check_runs e k s =
          (Inr ?failed,
           s\<lparr>journal := journal s @
               [Checks_listForSuite (owner e) (repo e) (check_suite_id e) ''completed'']\<rparr>)"
    using assms by (simp add: find_failed_check_runs_def await_def paginate_def return_a_def)
  moreover have "?failed = filter (\<lambda>r. conclusion r \<notin> {Some ''success'', Some ''neutral''}) response"
    by (rule filter_cong) auto
  moreover have "subseq ?failed response" by (rule subseq_filter_left)
  moreover have "\<forall>r\<in>set response.
              r \<in> set ?failed \<longleftrightarrow>
              conclusion r \<noteq> Some ''success'' \<and> conclusion r \<noteq> Some ''neutral''"
    by simp
  ultimately show ?thesis by blast
qed

theorem find_failed_check_runs_filters_witness:
  "find_failed_check_runs example_env
     (example_remote []
        [\<lparr>title = ''lint'', html_url = ''http://l'', conclusion = Some ''failure''\<rparr>,
         \<lparr>title = ''build'', html_url = ''http://b'', conclusion = Some ''success''\<rparr>,
         \<lparr>title = ''docs'', html_url = ''http://d'', conclusion = Some ''neutral''\<rparr>,
         \<lparr>title = ''e2e'', html_url = ''http://e'', conclusion = None\<rparr>,
         \<lparr>title = ''deploy'', html_url = ''http://p'', conclusion = Some ''skipped''\<rparr>])
     example_start
   = (Inr [\<lparr>title = ''lint'', html_url = ''http://l'', conclusion = Some ''failure''\<rparr>,
           \<lparr>title = ''e2e'', html_url = ''http://e'', conclusion = None\<rparr>,
           \<lparr>title = ''deploy'', html_url = ''http://p'', conclusion = Some ''skipped''\<rparr>],
      \<lparr>journal = [Checks_listForSuite ''octo'' ''demo'' 7 ''completed''], infos = []\<rparr>)"
proof -
  let ?runs = "[\<lparr>title = ''lint'', html_url = ''http://l'', conclusion = Some ''failure''\<rparr>,
         \<lparr>title = ''build'', html_url = ''http://b'', conclusion = Some ''success''\<rparr>,
         \<lparr>title = ''docs'', html_url = ''http://d'', conclusion = Some ''neutral''\<rparr>,
         \<lparr>title = ''e2e'', html_url = ''http://e'', conclusion = None\<rparr>,
         \<lparr>title = ''deploy'', html_url = ''http://p'', conclusion = Some ''skipped''\<rparr>]"
  let ?k = "example_remote [] ?runs"
  let ?req = "Checks_listForSuite (owner example_env) (repo example_env)
                (check_suite_id example_env) ''completed''"
  have h: "check_runs ?k (journal example_start) ?req = Some ?runs"
    by (simp add: example_remote_def)
  from find_failed_check_runs_filters [OF h] obtain failed_runs where
    r: "find_failed_check_runs example_env ?k example_start =
          (Inr failed_runs, example_start\<lparr>journal := journal example_start @ [?req]\<rparr>)"
    and f: "failed_runs = filter (\<lambda>r. conclusion r \<notin> {Some ''success'', Some ''neutral''}) ?runs"
    by blast
  have "failed_runs = [\<lparr>title = ''lint'', html_url = ''http://l'', conclusion = Some ''failure''\<rparr>,
           \<lparr>title = ''e2e'', html_url = ''http://e'', conclusion = None\<rparr>,
           \<lparr>title = ''deploy'', html_url = ''http://p'', conclusion = Some ''skipped''\<rparr>]"
    unfolding f by simp
  moreover have "example_start\<lparr>journal := journal example_start @ [?req]\<rparr> =
                 \<lparr>journal = [Checks_listForSuite ''octo'' ''demo'' 7 ''completed''], infos = []\<rparr>"
    by (simp add: example_start_def example_env_def)
  ultimately show ?thesis using r by simp
qed

text \<open>
  Claim C8. A rendered body is the signature
  \<open>GitHub Action status on <head_commit> generated by comment-failure-action\<close> followed
  by each section preceded by the separator; a generated section begins with the line
  \<open><!-- WORKFLOW:<workflow> -->\<close>; and every comment body that a request of \<open>run\<close>
  writes (in an update or in a creation) has that form, with a generated section among
  its sections.
\<close>

theorem comment_body_grammar:
  "generate_body e sections =
     ''GitHub Action status on '' @ head_commit e @ '' generated by comment-failure-action'' @
     concat (map (\<lambda>s. ''\<newline><!-- SEPARATOR -->\<newline>'' @ s) sections) \<and>
   prefix (''<!-- WORKFLOW:'' @ workflow e @ '' -->\<newline>'') (generate_section e failed_runs) \<and>
   (\<exists>new. journal (snd (run e k s)) = journal s @ new \<and>
      (\<forall>r\<in>set new. \<forall>b. written_body r = Some b \<longrightarrow>
         (\<exists>secs failed.
            b = ''GitHub Action status on '' @ head_commit e @
                '' generated by comment-failure-action'' @
                concat (map (\<lambda>s. ''\<newline><!-- SEPARATOR -->\<newline>'' @ s) secs) \<and>
            generate_section e failed \<in> set secs)))"
proof -
  from sends_only_run [of e k] obtain new where new:
    "journal (snd (run e k s)) = journal s @ new"
    "list_all (\<lambda>r. \<exists>failed. conforms e (generate_section e failed) r) new"
    unfolding sends_only_def by blast
  have "\<exists>secs failed.
          b = ''GitHub Action status on '' @ head_commit e @
              '' generated by comment-failure-action'' @
              concat (map (\<lambda>s. ''\<newline><!-- SEPARATOR -->\<newline>'' @ s) secs) \<and>
          generate_section e failed \<in> set secs"
    if "r \<in> set new" "written_body r = Some b" for r b
  proof -
    from new(2) that(1) obtain failed where "conforms e (generate_section e failed) r"
      by (auto simp: list_all_iff)
    with that(2) obtain secs where "b = generate_body e secs" "generate_section e failed \<in> set secs"
      unfolding conforms_def by blast
    then show ?thesis unfolding generate_body_grammar by blast
  qed
  with new(1) generate_body_grammar [of e sections] generate_section_tag_line [of e failed_runs]
  show ?thesis by blast
qed

theorem comment_body_grammar_witness:
  "journal (snd (run example_env
      (example_remote [\<lparr>number = 5\<rparr>]
         [\<lparr>title = ''lint'', html_url = ''http://x'', conclusion = Some ''failure''\<rparr>])
      example_start)) =
     [Pulls_list ''octo'' ''demo'' ''open'' ''octo:feature'',
      Checks_listForSuite ''octo'' ''demo'' 7 ''completed'',
      Issues_listComments ''octo'' ''demo'' 5,
      Issues_createComment ''octo'' ''demo'' 5
        ''GitHub Action status on abc123 generated by comment-failure-action\<newline><!-- SEPARATOR -->\<newline><!-- WORKFLOW:X -->\<newline>### X\<newline>| job | url |\<newline>|-----|-----|\<newline>| lint | http://x |'',
      Issues_addLabels ''octo'' ''demo'' 5 ''waiting-response''] \<and>
   (\<exists>secs failed.
      ''GitHub Action status on abc123 generated by comment-failure-action\<newline><!-- SEPARATOR -->\<newline><!-- WORKFLOW:X -->\<newline>### X\<newline>| job | url |\<newline>|-----|-----|\<newline>| lint | http://x |''
        = ''GitHub Action status on '' @ head_commit example_env @
          '' generated by comment-failure-action'' @
          concat (map (\<lambda>s. ''\<newline><!-- SEPARATOR -->\<newline>'' @ s) secs) \<and>
      generate_section example_env failed \<in> set secs)"
proof -
  let ?k = "example_remote [\<lparr>number = 5\<rparr>]
              [\<lparr>title = ''lint'', html_url = ''http://x'', conclusion = Some ''failure''\<rparr>]"
  let ?body = "''GitHub Action status on abc123 generated by comment-failure-action\<newline><!-- SEPARATOR -->\<newline><!-- WORKFLOW:X -->\<newline>### X\<newline>| job | url |\<newline>|-----|-----|\<newline>| lint | http://x |''"
  let ?create = "Issues_createComment ''octo'' ''demo'' 5 ?body"
  let ?sent = "[Pulls_list ''octo'' ''demo'' ''open'' ''octo:feature'',
      Checks_listForSuite ''octo'' ''demo'' 7 ''completed'',
      Issues_listComments ''octo'' ''demo'' 5, ?create,
      Issues_addLabels ''octo'' ''demo'' 5 ''waiting-response'']"
  have final: "journal (snd (run example_env ?k example_start)) = ?sent"
    by code_simp
  have start: "journal example_start = []"
    by (simp add: example_start_def)
  from comment_body_grammar [where e = example_env and k = ?k and s = example_start]
  obtain new where new: "journal (snd (run example_env ?k example_start)) = journal example_start @ new"
    and all: "\<forall>r\<in>set new. \<forall>b. written_body r = Some b \<longrightarrow>
         (\<exists>secs failed.
            b = ''GitHub Action status on '' @ head_commit example_env @
                '' generated by comment-failure-action'' @
                concat (map (\<lambda>s. ''\<newline><!-- SEPARATOR -->\<newline>'' @ s) secs) \<and>
            generate_section example_env failed \<in> set secs)"
    by blast
  from new final start have "new = ?sent" by simp
  then have "?create \<in> set new" by simp
  moreover have "written_body ?create = Some ?body" by simp
  ultimately have "\<exists>secs failed.
            ?body = ''GitHub Action status on '' @ head_commit example_env @
                '' generated by comment-failure-action'' @
                concat (map (\<lambda>s. ''\<newline><!-- SEPARATOR -->\<newline>'' @ s) secs) \<and>
            generate_section example_env failed \<in> set secs"
    using all by blast
  with final show ?thesis by (rule conjI)
qed

text \<open>
  Claim C9. When the listing of the comments holds a comment \<open>c\<close> whose body contains
  the signature, after comments none of which does, \<open>find_comment\<close> returns \<open>c\<close>,
  whatever comes after \<open>c\<close> (further comments with the signature included); and the
  only comment written in the iteration of \<open>run\<close> for that pull request is \<open>c\<close>, updated
  once.
\<close>

theorem find_comment_first_signature:
  assumes "comments k (journal s) (Issues_listComments (owner e) (repo e) (number pr))
             = Some (before @ c # after)"
    and "body c = Some b" and "includes_s b (signature e)"
    and "\<forall>x\<in>set before. \<forall>bx. body x = Some bx \<longrightarrow> \<not> includes_s bx (signature e)"
  shows "find_comment e k pr s =
           (Inr (Some c),
            s\<lparr>journal := journal s @ [Issues_listComments (owner e) (repo e) (number pr)]\<rparr>) \<and>
         filter (\<lambda>q. written_body q \<noteq> None)
           (drop (length (journal s)) (journal (snd (run_pr e k section failed_runs pr s))))
           = [Issues_updateComment (owner e) (repo e) (ident c)
                (generate_body e (replace_or_append_section e section (split_body e b)))]"
proof -
  let ?P = "\<lambda>c. case body c of None \<Rightarrow> False | Some b \<Rightarrow> includes_s b (signature e)"
  let ?list = "Issues_listComments (owner e) (repo e) (number pr)"
  let ?s' = "s\<lparr>journal := journal s @ [?list]\<rparr>"
  let ?upd = "Issues_updateComment (owner e) (repo e) (ident c)
                (generate_body e (replace_or_append_section e section (split_body e b)))"
  have "\<forall>x\<in>set before. \<not> ?P x"
    using assms(4) by (auto split: option.splits)
  then have "List.find ?P (before @ c # after) = Some c"
    using assms(2,3) by (induction before) simp_all
  with assms(1) have found: "find_comment e k pr s = (Inr (Some c), ?s')"
    by (simp add: find_comment_eq)
  have "run_pr e k section failed_runs pr s =
          await (send k ?upd)
            (\<lambda>_. await (core_info ''Updated comment'') (\<lambda>_. add_label e k pr)) ?s'"
    using found assms(2) by (rule run_pr_found)
  then have "journal (snd (run_pr e k section failed_runs pr s)) = journal s @ [?list, ?upd] \<or>
             journal (snd (run_pr e k section failed_runs pr s)) = journal s @
               [?list, ?upd, Issues_addLabels (owner e) (repo e) (number pr) ''waiting-response'']"
    by (simp add: await_def send_def core_info_def add_label_def)
  then have "filter (\<lambda>q. written_body q \<noteq> None)
               (drop (length (journal s)) (journal (snd (run_pr e k section failed_runs pr s))))
             = [?upd]"
    by auto
  with found show ?thesis by simp
qed

theorem find_comment_first_signature_witness:
  "find_comment example_env
     (example_remote [\<lparr>number = 6\<rparr>]
        [\<lparr>title = ''lint'', html_url = ''http://x'', conclusion = Some ''success''\<rparr>])
     \<lparr>number = 6\<rparr> example_start
   = (Inr (Some \<lparr>ident = 61, body = Some ''GitHub Action status on abc123 generated by comment-failure-action\<newline><!-- SEPARATOR -->\<newline><!-- WORKFLOW:X -->\<newline>### X\<newline>| job | url |\<newline>|-----|-----|\<newline>| lint | http://x |''\<rparr>),
      \<lparr>journal = [Issues_listComments ''octo'' ''demo'' 6], infos = []\<rparr>) \<and>
   includes_s ''GitHub Action status on abc123 generated by comment-failure-action\<newline><!-- SEPARATOR -->\<newline><!-- WORKFLOW:X -->\<newline>### X\<newline>| job | url |\<newline>|-----|-----|\<newline>| lint | http://x |''
     (signature example_env) \<and>
   includes_s ''GitHub Action status on abc123 generated by comment-failure-action''
     (signature example_env) \<and>
   filter (\<lambda>q. written_body q \<noteq> None)
     (journal (snd (run_pr example_env
        (example_remote [\<lparr>number = 6\<rparr>]
           [\<lparr>title = ''lint'', html_url = ''http://x'', conclusion = Some ''success''\<rparr>])
        (generate_section example_env []) [] \<lparr>number = 6\<rparr> example_start)))
   = [Issues_updateComment ''octo'' ''demo'' 61
        ''GitHub Action status on abc123 generated by comment-failure-action\<newline><!-- SEPARATOR -->\<newline><!-- WORKFLOW:X -->\<newline>### X\<newline>No jobs failed :+1:'']"
proof -
  let ?k = "example_remote [\<lparr>number = 6\<rparr>]
              [\<lparr>title = ''lint'', html_url = ''http://x'', conclusion = Some ''success''\<rparr>]"
  let ?b = "''GitHub Action status on abc123 generated by comment-failure-action\<newline><!-- SEPARATOR -->\<newline><!-- WORKFLOW:X -->\<newline>### X\<newline>| job | url |\<newline>|-----|-----|\<newline>| lint | http://x |''"
  let ?c60 = "\<lparr>ident = 60, body = None\<rparr>"
  let ?c61 = "\<lparr>ident = 61, body = Some ?b\<rparr>"
  let ?c62 = "\<lparr>ident = 62, body = Some ''GitHub Action status on abc123 generated by comment-failure-action''\<rparr>"
  let ?req = "Issues_listComments (owner example_env) (repo example_env) (number \<lparr>number = 6\<rparr>)"
  have h1: "comments ?k (journal example_start) ?req = Some ([?c60] @ ?c61 # [?c62])"
    by (simp add: example_remote_def example_comments_def)
  have h2: "body ?c61 = Some ?b" by (simp only: issue_comment.select_convs)
  have h3: "includes_s ?b (signature example_env)" by code_simp
  have h4: "\<forall>x\<in>set [?c60]. \<forall>bx. body x = Some bx \<longrightarrow> \<not> includes_s bx (signature example_env)"
    by simp
  have later: "includes_s ''GitHub Action status on abc123 generated by comment-failure-action''
     (signature example_env)" by code_simp
  have st: "example_start\<lparr>journal := journal example_start @ [?req]\<rparr> =
            \<lparr>journal = [Issues_listComments ''octo'' ''demo'' 6], infos = []\<rparr>"
    by (simp add: example_start_def example_env_def)
  have written: "filter (\<lambda>q. written_body q \<noteq> None)
     (journal (snd (run_pr example_env ?k (generate_section example_env []) [] \<lparr>number = 6\<rparr>
        example_start)))
   = [Issues_updateComment ''octo'' ''demo'' 61
        ''GitHub Action status on abc123 generated by comment-failure-action\<newline><!-- SEPARATOR -->\<newline><!-- WORKFLOW:X -->\<newline>### X\<newline>No jobs failed :+1:'']"
    by code_simp
  from find_comment_first_signature [OF h1 h2 h3 h4]
  have "find_comment example_env ?k \<lparr>number = 6\<rparr> example_start =
          (Inr (Some ?c61), example_start\<lparr>journal := journal example_start @ [?req]\<rparr>)"
    by (rule conjunct1)
  then have "find_comment example_env ?k \<lparr>number = 6\<rparr> example_start =
          (Inr (Some ?c61), \<lparr>journal = [Issues_listComments ''octo'' ''demo'' 6], infos = []\<rparr>)"
    by (simp only: st)
  then show ?thesis using h3 later written by (intro conjI)
qed

text \<open>
  Claim C10. Whenever the listing of the comments is answered, \<open>find_comment\<close> returns
  a result and no \<open>TypeError\<close>; a comment it returns has a body; and the result is
  the one the containment check alone finds in the list without the comments whose
  body is \<open>undefined\<close>.
\<close>

theorem find_comment_skips_undefined_body:
  assumes "comments k (journal s) (Issues_listComments (owner e) (repo e) (number pr)) = Some cs"
  shows "\<exists>r. find_comment e k pr s =
               (Inr r, s\<lparr>journal := journal s @
                            [Issues_listComments (owner e) (repo e) (number pr)]\<rparr>) \<and>
             (\<forall>c. r = Some c \<longrightarrow> body c \<noteq> None) \<and>
             find_e (\<lambda>c. includes_m (body c) (signature e)) (filter (\<lambda>c. body c \<noteq> None) cs)
               = Inr r"
proof -
  let ?P = "\<lambda>c. case body c of None \<Rightarrow> False | Some b \<Rightarrow> includes_s b (signature e)"
  have "find_comment e k pr s =
          (Inr (List.find ?P cs),
           s\<lparr>journal := journal s @ [Issues_listComments (owner e) (repo e) (number pr)]\<rparr>)"
    using assms by (simp add: find_comment_eq)
  moreover have "\<forall>c. List.find ?P cs = Some c \<longrightarrow> body c \<noteq> None"
    by (auto simp: find_Some_iff split: option.splits)
  moreover have "find_e (\<lambda>c. includes_m (body c) (signature e)) (filter (\<lambda>c. body c \<noteq> None) cs)
                 = Inr (List.find ?P cs)"
    using find_e_defined [of "signature e" cs] find_e_guarded [of "signature e" cs] by simp
  ultimately show ?thesis by blast
qed

theorem find_comment_skips_undefined_body_witness:
  "body \<lparr>ident = 60, body = None\<rparr> = None \<and>
   includes_m (body \<lparr>ident = 60, body = None\<rparr>) (signature example_env) = Inl TypeError \<and>
   fst (find_comment example_env
     (example_remote [\<lparr>number = 6\<rparr>] []) \<lparr>number = 6\<rparr> example_start)
   = Inr (Some \<lparr>ident = 61, body = Some ''GitHub Action status on abc123 generated by comment-failure-action\<newline><!-- SEPARATOR -->\<newline><!-- WORKFLOW:X -->\<newline>### X\<newline>| job | url |\<newline>|-----|-----|\<newline>| lint | http://x |''\<rparr>)"
proof -
  let ?k = "example_remote [\<lparr>number = 6\<rparr>] []"
  let ?b = "''GitHub Action status on abc123 generated by comment-failure-action\<newline><!-- SEPARATOR -->\<newline><!-- WORKFLOW:X -->\<newline>### X\<newline>| job | url |\<newline>|-----|-----|\<newline>| lint | http://x |''"
  let ?c61 = "\<lparr>ident = 61, body = Some ?b\<rparr>"
  let ?req = "Issues_listComments (owner example_env) (repo example_env) (number \<lparr>number = 6\<rparr>)"
  have h: "comments ?k (journal example_start) ?req = Some (example_comments 6)"
    by (simp add: example_remote_def)
  have a: "body \<lparr>ident = 60, body = None\<rparr> = None" by simp
  have b: "includes_m (body \<lparr>ident = 60, body = None\<rparr>) (signature example_env) = Inl TypeError"
    by (simp add: includes_m_def)
  have bare: "find_e (\<lambda>c. includes_m (body c) (signature example_env))
                (filter (\<lambda>c. body c \<noteq> None) (example_comments 6)) = Inr (Some ?c61)"
    by code_simp
  from find_comment_skips_undefined_body [OF h] obtain r where
    "find_comment example_env ?k \<lparr>number = 6\<rparr> example_start =
       (Inr r, example_start\<lparr>journal := journal example_start @ [?req]\<rparr>)"
    and "find_e (\<lambda>c. includes_m (body c) (signature example_env))
           (filter (\<lambda>c. body c \<noteq> None) (example_comments 6)) = Inr r"
    by blast
  with bare have "fst (find_comment example_env ?k \<lparr>number = 6\<rparr> example_start) = Inr (Some ?c61)"
    by simp
  with a b show ?thesis by (intro conjI)
qed

end
